theory Spec2Isabelle
  imports Main
begin

section \<open>JSON values as the client sees them\<close>

text \<open>
  The stream decoder and the interceptors of \<^verbatim>\<open>frontend/src/utils/api.js\<close> work on the
  values that the platform's \<^verbatim>\<open>JSON.parse\<close> returns. They are modelled by the datatype
  below. Numbers are integers (the protocol carries identifiers, well inside the range
  that the platform represents exactly); an object keeps its
  members in the order of the text, and a later duplicate key overrides an earlier one.
  A property that is missing reads as \<^verbatim>\<open>undefined\<close>, which is \<open>None\<close> here.
\<close>

datatype json =
    JNull
  | JBool bool
  | JNum int
  | JStr string
  | JArr "json list"
  | JObj "(string \<times> json) list"

text \<open>Property access \<^verbatim>\<open>v.k\<close> on a value other than \<^verbatim>\<open>null\<close>: only objects carry
  the keys the client reads.\<close>

fun js_get :: "json \<Rightarrow> string \<Rightarrow> json option" where
  "js_get (JObj kvs) k = map_of (rev kvs) k"
| "js_get _ k = None"

text \<open>JavaScript truthiness, as used by \<^verbatim>\<open>if (data.content)\<close>.\<close>

fun truthy :: "json \<Rightarrow> bool" where
  "truthy JNull = False"
| "truthy (JBool b) = b"
| "truthy (JNum n) = (n \<noteq> 0)"
| "truthy (JStr s) = (s \<noteq> [])"
| "truthy (JArr xs) = True"
| "truthy (JObj kvs) = True"

definition js_truthy :: "json option \<Rightarrow> bool" where
  "js_truthy v = (case v of None \<Rightarrow> False | Some x \<Rightarrow> truthy x)"

text \<open>Decimal digits of a number, for string conversion.\<close>

definition digit_char :: "nat \<Rightarrow> char" where
  "digit_char d = char_of (48 + d)"

fun show_nat :: "nat \<Rightarrow> string" where
  "show_nat n = (if n < 10 then [digit_char n] else show_nat (n div 10) @ [digit_char (n mod 10)])"

declare show_nat.simps [simp del]

definition show_int :: "int \<Rightarrow> string" where
  "show_int i = (if i < 0 then CHR ''-'' # show_nat (nat (- i)) else show_nat (nat i))"

fun intercalate :: "string \<Rightarrow> string list \<Rightarrow> string" where
  "intercalate sep [] = []"
| "intercalate sep [x] = x"
| "intercalate sep (x # y # ys) = x @ sep @ intercalate sep (y # ys)"

text \<open>String conversion (\<^verbatim>\<open>String(v)\<close>, template literals and \<^verbatim>\<open>+=\<close> on a string): an
  array joins its elements with commas, \<^verbatim>\<open>null\<close> elements giving the empty string.\<close>

fun js_to_string :: "json \<Rightarrow> string" where
  "js_to_string JNull = ''null''"
| "js_to_string (JBool b) = (if b then ''true'' else ''false'')"
| "js_to_string (JNum n) = show_int n"
| "js_to_string (JStr s) = s"
| "js_to_string (JArr xs) =
     intercalate '','' (map (\<lambda>x. if x = JNull then [] else js_to_string x) xs)"
| "js_to_string (JObj kvs) = ''[object Object]''"

definition js_string_of :: "json option \<Rightarrow> string" where
  "js_string_of v = (case v of None \<Rightarrow> ''undefined'' | Some x \<Rightarrow> js_to_string x)"

section \<open>A model of \<^verbatim>\<open>JSON.parse\<close>\<close>

text \<open>
  \<^verbatim>\<open>JSON.parse\<close> belongs to the platform. The decoder below takes it as a parameter; the
  concrete parser of this section is used where a claim is about a concrete text. It
  covers the JSON grammar on texts whose numbers are integer literals and whose
  \<^verbatim>\<open>\u\<close> escapes denote code units below 256; a syntax error is \<open>None\<close>.
\<close>

definition is_ws :: "char \<Rightarrow> bool" where
  "is_ws c = (c = CHR '' '' \<or> c = CHR 0x09 \<or> c = CHR 0x0A \<or> c = CHR 0x0D)"

fun skip_ws :: "string \<Rightarrow> string" where
  "skip_ws [] = []"
| "skip_ws (c # cs) = (if is_ws c then skip_ws cs else c # cs)"

definition is_digit :: "char \<Rightarrow> bool" where
  "is_digit c = (48 \<le> (of_char c :: nat) \<and> (of_char c :: nat) \<le> 57)"

definition digit_val :: "char \<Rightarrow> nat" where
  "digit_val c = (of_char c :: nat) - 48"

definition hex_val :: "char \<Rightarrow> nat option" where
  "hex_val c =
     (let n = (of_char c :: nat) in
      if 48 \<le> n \<and> n \<le> 57 then Some (n - 48)
      else if 65 \<le> n \<and> n \<le> 70 then Some (n - 55)
      else if 97 \<le> n \<and> n \<le> 102 then Some (n - 87)
      else None)"

definition unescape :: "char \<Rightarrow> char option" where
  "unescape e =
     (if e = CHR 0x22 then Some (CHR 0x22)
      else if e = CHR 0x5C then Some (CHR 0x5C)
      else if e = CHR ''/'' then Some (CHR ''/'')
      else if e = CHR ''b'' then Some (CHR 0x08)
      else if e = CHR ''f'' then Some (CHR 0x0C)
      else if e = CHR ''n'' then Some (CHR 0x0A)
      else if e = CHR ''r'' then Some (CHR 0x0D)
      else if e = CHR ''t'' then Some (CHR 0x09)
      else None)"

definition unicode_escape :: "string \<Rightarrow> char option" where
  "unicode_escape hs =
     (case map hex_val hs of
        [Some a, Some b, Some c, Some d] \<Rightarrow>
          if a = 0 \<and> b = 0 then Some (char_of (16 * c + d)) else None
      | _ \<Rightarrow> None)"

text \<open>The characters of a string literal after its opening quote, up to the closing one.\<close>

fun parse_string_body :: "string \<Rightarrow> (string \<times> string) option" where
  "parse_string_body [] = None"
| "parse_string_body (c # cs) =
     (if c = CHR 0x22 then Some ([], cs)
      else if c = CHR 0x5C then
        (case cs of
           [] \<Rightarrow> None
         | e # cs' \<Rightarrow>
             if e = CHR ''u'' then
               (case unicode_escape (take 4 cs') of
                  None \<Rightarrow> None
                | Some ch \<Rightarrow>
                    (case parse_string_body (drop 4 cs') of
                       None \<Rightarrow> None
                     | Some (s, r) \<Rightarrow> Some (ch # s, r)))
             else
               (case unescape e of
                  None \<Rightarrow> None
                | Some ch \<Rightarrow>
                    (case parse_string_body cs' of
                       None \<Rightarrow> None
                     | Some (s, r) \<Rightarrow> Some (ch # s, r))))
      else if (of_char c :: nat) < 32 then None
      else
        (case parse_string_body cs of
           None \<Rightarrow> None
         | Some (s, r) \<Rightarrow> Some (c # s, r)))"

fun parse_digits :: "nat \<Rightarrow> string \<Rightarrow> nat \<times> string" where
  "parse_digits acc [] = (acc, [])"
| "parse_digits acc (c # cs) =
     (if is_digit c then parse_digits (10 * acc + digit_val c) cs else (acc, c # cs))"

text \<open>An integer literal: no leading zeros; a fraction or an exponent is outside the model.\<close>

definition no_fraction :: "string \<Rightarrow> bool" where
  "no_fraction r = (case r of [] \<Rightarrow> True | c # _ \<Rightarrow> c \<noteq> CHR ''.'' \<and> c \<noteq> CHR ''e'' \<and> c \<noteq> CHR ''E'')"

definition parse_nat :: "string \<Rightarrow> (nat \<times> string) option" where
  "parse_nat s =
     (case s of
        [] \<Rightarrow> None
      | c # cs \<Rightarrow>
          if c = CHR ''0'' then (if no_fraction cs then Some (0, cs) else None)
          else if is_digit c then
            (case parse_digits 0 (c # cs) of (n, r) \<Rightarrow> if no_fraction r then Some (n, r) else None)
          else None)"

definition parse_number :: "string \<Rightarrow> (json \<times> string) option" where
  "parse_number s =
     (case s of
        [] \<Rightarrow> None
      | c # cs \<Rightarrow>
          if c = CHR ''-'' then
            (case parse_nat cs of None \<Rightarrow> None | Some (n, r) \<Rightarrow> Some (JNum (- int n), r))
          else
            (case parse_nat (c # cs) of None \<Rightarrow> None | Some (n, r) \<Rightarrow> Some (JNum (int n), r)))"

definition starts_with :: "string \<Rightarrow> string \<Rightarrow> bool" where
  "starts_with s p = (take (length p) s = p)"

text \<open>Values, array elements and object members. The first argument bounds the number of
  nested calls; \<open>JSON_parse\<close> starts it above the length of the text.\<close>

fun parse_value :: "nat \<Rightarrow> string \<Rightarrow> (json \<times> string) option"
  and parse_elements :: "nat \<Rightarrow> string \<Rightarrow> json list \<Rightarrow> (json \<times> string) option"
  and parse_members :: "nat \<Rightarrow> string \<Rightarrow> (string \<times> json) list \<Rightarrow> (json \<times> string) option"
where
  "parse_value 0 s = None"
| "parse_value (Suc n) s =
     (case skip_ws s of
        [] \<Rightarrow> None
      | c # cs \<Rightarrow>
          if c = CHR ''{'' then
            (case skip_ws cs of
               [] \<Rightarrow> None
             | c' # cs' \<Rightarrow> if c' = CHR ''}'' then Some (JObj [], cs') else parse_members n (c' # cs') [])
          else if c = CHR ''['' then
            (case skip_ws cs of
               [] \<Rightarrow> None
             | c' # cs' \<Rightarrow> if c' = CHR '']'' then Some (JArr [], cs') else parse_elements n (c' # cs') [])
          else if c = CHR 0x22 then
            (case parse_string_body cs of None \<Rightarrow> None | Some (str, r) \<Rightarrow> Some (JStr str, r))
          else if starts_with (c # cs) ''true'' then Some (JBool True, drop 4 (c # cs))
          else if starts_with (c # cs) ''false'' then Some (JBool False, drop 5 (c # cs))
          else if starts_with (c # cs) ''null'' then Some (JNull, drop 4 (c # cs))
          else parse_number (c # cs))"
| "parse_elements 0 s acc = None"
| "parse_elements (Suc n) s acc =
     (case parse_value n s of
        None \<Rightarrow> None
      | Some (v, r) \<Rightarrow>
          (case skip_ws r of
             [] \<Rightarrow> None
           | c # r' \<Rightarrow>
               if c = CHR '','' then parse_elements n r' (acc @ [v])
               else if c = CHR '']'' then Some (JArr (acc @ [v]), r')
               else None))"
| "parse_members 0 s acc = None"
| "parse_members (Suc n) s acc =
     (case skip_ws s of
        [] \<Rightarrow> None
      | c # cs \<Rightarrow>
          if c = CHR 0x22 then
            (case parse_string_body cs of
               None \<Rightarrow> None
             | Some (k, r) \<Rightarrow>
                 (case skip_ws r of
                    [] \<Rightarrow> None
                  | c2 # r2 \<Rightarrow>
                      if c2 = CHR '':'' then
                        (case parse_value n r2 of
                           None \<Rightarrow> None
                         | Some (v, r3) \<Rightarrow>
                             (case skip_ws r3 of
                                [] \<Rightarrow> None
                              | c3 # r4 \<Rightarrow>
                                  if c3 = CHR '','' then parse_members n r4 (acc @ [(k, v)])
                                  else if c3 = CHR ''}'' then Some (JObj (acc @ [(k, v)]), r4)
                                  else None))
                      else None))
          else None)"

definition JSON_parse :: "string \<Rightarrow> json option" where
  "JSON_parse s =
     (case parse_value (Suc (length s)) s of
        None \<Rightarrow> None
      | Some (v, r) \<Rightarrow> if skip_ws r = [] then Some v else None)"

section \<open>The stream decoder: \<^verbatim>\<open>streamChat\<close>\<close>

text \<open>\<^verbatim>\<open>chunk.split('\n')\<close>: the pieces between newlines; a text without a newline is one
  piece, and a text that ends with a newline has an empty last piece.\<close>

fun split_nl :: "string \<Rightarrow> string list" where
  "split_nl [] = [[]]"
| "split_nl (c # cs) =
     (if c = CHR 0x0A then [] # split_nl cs
      else (case split_nl cs of [] \<Rightarrow> [[c]] | l # ls \<Rightarrow> (c # l) # ls))"

text \<open>One guarded callback, \<^verbatim>\<open>if (data.k) cb(arg)\<close>.\<close>

definition if_truthy :: "json option \<Rightarrow> ('s \<Rightarrow> 's) \<Rightarrow> 's \<Rightarrow> 's" where
  "if_truthy v cb s = (if js_truthy v then cb s else s)"

text \<open>
  The body of the \<^verbatim>\<open>for (const line of lines)\<close> loop. The callbacks are state
  transformers: those that the chat page passes only enqueue state updates and do not
  throw. A line without the prefix is skipped; a payload on which \<open>parse\<close> fails
  throws inside the \<^verbatim>\<open>try\<close> and is ignored by the empty \<^verbatim>\<open>catch\<close>; a payload that
  parses to \<^verbatim>\<open>null\<close> throws at \<^verbatim>\<open>data.content\<close> and is ignored the same way. Otherwise
  the three fields are tested in the order content, done, error.
\<close>

definition handle_line ::
  "(string \<Rightarrow> json option) \<Rightarrow> (json \<Rightarrow> 's \<Rightarrow> 's) \<Rightarrow> (json option \<Rightarrow> 's \<Rightarrow> 's) \<Rightarrow>
   (json \<Rightarrow> 's \<Rightarrow> 's) \<Rightarrow> string \<Rightarrow> 's \<Rightarrow> 's" where
  "handle_line parse onChunk onDone onError line s =
     (if starts_with line ''data: '' then
        (case parse (drop 6 line) of
           None \<Rightarrow> s
         | Some d \<Rightarrow>
             if d = JNull then s
             else
               (let s1 = (case js_get d ''content'' of
                            None \<Rightarrow> s
                          | Some v \<Rightarrow> if truthy v then onChunk v s else s);
                    s2 = if_truthy (js_get d ''done'') (onDone (js_get d ''conversation_id'')) s1;
                    s3 = (case js_get d ''error'' of
                            None \<Rightarrow> s2
                          | Some e \<Rightarrow> if truthy e then onError e s2 else s2)
                in s3))
      else s)"

text \<open>One iteration of the \<^verbatim>\<open>while (true)\<close> loop after a successful read: the chunk,
  already decoded to text, is split and every piece is handled. Nothing is kept from one
  read to the next.\<close>

definition handle_chunk ::
  "(string \<Rightarrow> json option) \<Rightarrow> (json \<Rightarrow> 's \<Rightarrow> 's) \<Rightarrow> (json option \<Rightarrow> 's \<Rightarrow> 's) \<Rightarrow>
   (json \<Rightarrow> 's \<Rightarrow> 's) \<Rightarrow> string \<Rightarrow> 's \<Rightarrow> 's" where
  "handle_chunk parse onChunk onDone onError chunk s =
     fold (handle_line parse onChunk onDone onError) (split_nl chunk) s"

text \<open>How the body of a response ends: the reader reports end of data, or a read rejects.\<close>

datatype read_end = EndOfData | ReadRejected string

text \<open>What \<^verbatim>\<open>fetch\<close> gives: a rejection (with the error's message), a response that is
  not ok (whose body fails to read as JSON, with that error's message, or reads as a
  value), or an ok response whose body arrives as a list of chunks.\<close>

datatype fetch_outcome =
    FetchRejected string
  | ResponseNotOk "string + json"
  | ResponseOk "string list" read_end

text \<open>The message of the \<^verbatim>\<open>TypeError\<close> raised by \<^verbatim>\<open>error.detail\<close> on \<^verbatim>\<open>null\<close>.\<close>

definition null_detail_message :: string where
  "null_detail_message = ''Cannot read properties of null (reading 'detail')''"

definition failure_message :: "json \<Rightarrow> string" where
  "failure_message e =
     (if e = JNull then null_detail_message
      else (case js_get e ''detail'' of
              None \<Rightarrow> ''Failed to send message''
            | Some d \<Rightarrow> if truthy d then js_to_string d else ''Failed to send message''))"

definition streamChat ::
  "(string \<Rightarrow> json option) \<Rightarrow> fetch_outcome \<Rightarrow> (json \<Rightarrow> 's \<Rightarrow> 's) \<Rightarrow>
   (json option \<Rightarrow> 's \<Rightarrow> 's) \<Rightarrow> (json \<Rightarrow> 's \<Rightarrow> 's) \<Rightarrow> 's \<Rightarrow> 's" where
  "streamChat parse outcome onChunk onDone onError s =
     (case outcome of
        FetchRejected m \<Rightarrow> onError (JStr m) s
      | ResponseNotOk (Inl m) \<Rightarrow> onError (JStr m) s
      | ResponseNotOk (Inr e) \<Rightarrow> onError (JStr (failure_message e)) s
      | ResponseOk chunks fin \<Rightarrow>
          (let s' = fold (handle_chunk parse onChunk onDone onError) chunks s
           in case fin of EndOfData \<Rightarrow> s' | ReadRejected m \<Rightarrow> onError (JStr m) s'))"

text \<open>The callbacks in the order in which a stream invokes them.\<close>

datatype callback = OnChunk json | OnDone "json option" | OnError json

definition stream_calls :: "(string \<Rightarrow> json option) \<Rightarrow> fetch_outcome \<Rightarrow> callback list" where
  "stream_calls parse outcome =
     streamChat parse outcome
       (\<lambda>v cs. cs @ [OnChunk v]) (\<lambda>v cs. cs @ [OnDone v]) (\<lambda>v cs. cs @ [OnError v]) []"

text \<open>Applying a recorded callback to a state.\<close>

fun call ::
  "(json \<Rightarrow> 's \<Rightarrow> 's) \<Rightarrow> (json option \<Rightarrow> 's \<Rightarrow> 's) \<Rightarrow> (json \<Rightarrow> 's \<Rightarrow> 's) \<Rightarrow> callback \<Rightarrow> 's \<Rightarrow> 's" where
  "call onChunk onDone onError (OnChunk v) = onChunk v"
| "call onChunk onDone onError (OnDone i) = onDone i"
| "call onChunk onDone onError (OnError e) = onError e"

definition line_calls :: "(string \<Rightarrow> json option) \<Rightarrow> string \<Rightarrow> callback list" where
  "line_calls parse line =
     handle_line parse
       (\<lambda>v cs. cs @ [OnChunk v]) (\<lambda>v cs. cs @ [OnDone v]) (\<lambda>v cs. cs @ [OnError v]) line []"

text \<open>A line that carries one content frame and nothing else, and a line that is dropped
  because it lacks the prefix or because its payload does not parse.\<close>

definition content_frame :: "(string \<Rightarrow> json option) \<Rightarrow> string \<Rightarrow> json \<Rightarrow> bool" where
  "content_frame parse line v =
     (starts_with line ''data: '' \<and>
      (case parse (drop 6 line) of
         None \<Rightarrow> False
       | Some d \<Rightarrow>
           js_get d ''content'' = Some v \<and> truthy v \<and>
           \<not> js_truthy (js_get d ''done'') \<and> \<not> js_truthy (js_get d ''error'')))"

definition unparseable :: "(string \<Rightarrow> json option) \<Rightarrow> string \<Rightarrow> bool" where
  "unparseable parse line = (\<not> starts_with line ''data: '' \<or> parse (drop 6 line) = None)"

section \<open>The credential store and the request of \<^verbatim>\<open>streamChat\<close>\<close>

text \<open>\<^verbatim>\<open>localStorage\<close>: a map from keys to strings. \<^verbatim>\<open>getItem\<close> of a missing key is
  \<^verbatim>\<open>null\<close>, here \<open>None\<close>; \<^verbatim>\<open>if (token)\<close> holds for a stored string that is not empty.\<close>

type_synonym storage = "string \<rightharpoonup> string"

definition present :: "string option \<Rightarrow> bool" where
  "present t = (case t of None \<Rightarrow> False | Some v \<Rightarrow> v \<noteq> [])"

text \<open>A request as it leaves the client: the headers are a list of pairs with distinct
  names.\<close>

record request =
  url :: string
  http_method :: string
  headers :: "(string \<times> string) list"
  body :: "json option"

definition header :: "'a request_scheme \<Rightarrow> string \<Rightarrow> string option" where
  "header r name = map_of (headers r) name"

text \<open>The \<^verbatim>\<open>fetch\<close> call of \<^verbatim>\<open>streamChat\<close>: the token is read from the store and put into
  the template literal whatever it is, so a missing token is written as \<^verbatim>\<open>null\<close>. The
  body is \<^verbatim>\<open>{...data, stream: true}\<close>.\<close>

definition streamChat_request :: "storage \<Rightarrow> (string \<times> json) list \<Rightarrow> request" where
  "streamChat_request ls data =
     (let token = ls ''access_token'' in
      \<lparr> url = ''/chat/send'',
        http_method = ''POST'',
        headers = [(''Content-Type'', ''application/json''),
                   (''Authorization'', ''Bearer '' @ (case token of None \<Rightarrow> ''null'' | Some t \<Rightarrow> t))],
        body = Some (JObj (data @ [(''stream'', JBool True)])) \<rparr>)"

section \<open>The chat page: \<^verbatim>\<open>handleSendMessage\<close>\<close>

record message =
  msg_id :: nat
  role :: string
  content :: string
  model_used :: "string option"
  created_at :: string

text \<open>Of a conversation only the identifier is read on these paths
  (\<^verbatim>\<open>currentConversation?.id\<close>); a frame without one leaves it \<^verbatim>\<open>undefined\<close>.\<close>

record conversation =
  conv_id :: "json option"

text \<open>The state of the page that a turn reads and writes, together with the streaming
  requests issued so far and a flag for a state update that threw.\<close>

record chat =
  messages :: "message list"
  currentConversation :: "conversation option"
  selectedModel :: string
  isLoading :: bool
  isStreaming :: bool
  streams :: "request list"
  render_failed :: bool

text \<open>The two readings of the clock that a turn takes (\<^verbatim>\<open>Date.now()\<close> and
  \<^verbatim>\<open>new Date().toISOString()\<close>, once for each message).\<close>

record clock =
  user_now :: nat
  user_iso :: string
  assistant_now :: nat
  assistant_iso :: string

text \<open>\<^verbatim>\<open>setMessages(prev => ...)\<close> with an updater that may throw (reading \<^verbatim>\<open>role\<close> of
  \<^verbatim>\<open>undefined\<close> when the list is empty).\<close>

definition setMessages :: "(message list \<Rightarrow> message list option) \<Rightarrow> chat \<Rightarrow> chat" where
  "setMessages f s =
     (case f (messages s) of
        None \<Rightarrow> s\<lparr>render_failed := True\<rparr>
      | Some ms \<Rightarrow> s\<lparr>messages := ms\<rparr>)"

definition update_last :: "(message \<Rightarrow> message) \<Rightarrow> message list \<Rightarrow> message list option" where
  "update_last f prev =
     (if prev = [] then None
      else if role (last prev) = ''assistant'' then Some (butlast prev @ [f (last prev)])
      else Some prev)"

definition chat_onChunk :: "json \<Rightarrow> chat \<Rightarrow> chat" where
  "chat_onChunk chunk s =
     setMessages (update_last (\<lambda>m. m\<lparr>content := content m @ js_to_string chunk\<rparr>)) s"

text \<open>\<^verbatim>\<open>onDone\<close> tests the conversation that the turn captured when it was submitted. The
  identifier is adopted after the list of conversations has been reloaded, whether or
  not the reload succeeds; the model adopts it at once.\<close>

definition chat_onDone :: "conversation option \<Rightarrow> json option \<Rightarrow> chat \<Rightarrow> chat" where
  "chat_onDone captured conversationId s =
     (let s1 = s\<lparr>isLoading := False, isStreaming := False\<rparr>
      in if captured = None then s1\<lparr>currentConversation := Some \<lparr>conv_id = conversationId\<rparr>\<rparr>
         else s1)"

definition chat_onError :: "json \<Rightarrow> chat \<Rightarrow> chat" where
  "chat_onError err s =
     setMessages (update_last (\<lambda>m. m\<lparr>content := ''Error: '' @ js_to_string err\<rparr>))
       (s\<lparr>isLoading := False, isStreaming := False\<rparr>)"

text \<open>The fields of the request body, \<^verbatim>\<open>conversation_id\<close> being left out by
  \<^verbatim>\<open>JSON.stringify\<close> when it is \<^verbatim>\<open>undefined\<close>.\<close>

definition turn_data :: "chat \<Rightarrow> string \<Rightarrow> (string \<times> json) list" where
  "turn_data s text =
     [(''message'', JStr text)] @
     (case currentConversation s of
        None \<Rightarrow> []
      | Some c \<Rightarrow> (case conv_id c of None \<Rightarrow> [] | Some i \<Rightarrow> [(''conversation_id'', i)])) @
     [(''model'', JStr (selectedModel s))]"

text \<open>The part of \<^verbatim>\<open>handleSendMessage\<close> that runs before the stream is awaited: the guard,
  the two messages, the two flags, and the call of \<^verbatim>\<open>streamChat\<close>, which issues its
  request.\<close>

definition submit :: "storage \<Rightarrow> clock \<Rightarrow> string \<Rightarrow> chat \<Rightarrow> chat" where
  "submit ls clk text s =
     (if isLoading s \<or> isStreaming s then s
      else
        (let userMessage =
               \<lparr> msg_id = user_now clk, role = ''user'', content = text,
                 model_used = None, created_at = user_iso clk \<rparr>;
             assistantMessage =
               \<lparr> msg_id = assistant_now clk + 1, role = ''assistant'', content = [],
                 model_used = Some (selectedModel s), created_at = assistant_iso clk \<rparr>
         in s\<lparr> messages := messages s @ [userMessage] @ [assistantMessage],
               isLoading := True,
               isStreaming := True,
               streams := streams s @ [streamChat_request ls (turn_data s text)] \<rparr>))"

text \<open>A whole turn, given what the network answers.\<close>

definition handleSendMessage ::
  "(string \<Rightarrow> json option) \<Rightarrow> storage \<Rightarrow> clock \<Rightarrow> string \<Rightarrow> fetch_outcome \<Rightarrow> chat \<Rightarrow> chat" where
  "handleSendMessage parse ls clk text outcome s =
     (if isLoading s \<or> isStreaming s then s
      else streamChat parse outcome chat_onChunk (chat_onDone (currentConversation s)) chat_onError
             (submit ls clk text s))"

text \<open>The state of the page when it is mounted (the initial values of its state hooks).\<close>

definition initial_chat :: chat where
  "initial_chat =
     \<lparr> messages = [], currentConversation = None, selectedModel = ''llama-3.1-70b-versatile'',
       isLoading = False, isStreaming = False, streams = [], render_failed = False \<rparr>"

text \<open>The callbacks of a turn, applied to a recorded call.\<close>

definition chat_call :: "conversation option \<Rightarrow> callback \<Rightarrow> chat \<Rightarrow> chat" where
  "chat_call captured = call chat_onChunk (chat_onDone captured) chat_onError"

text \<open>While a turn streams, the last message of the list is the assistant's.\<close>

definition streaming_tail :: "chat \<Rightarrow> bool" where
  "streaming_tail s = (messages s \<noteq> [] \<and> role (last (messages s)) = ''assistant'')"

section \<open>The dispatcher and its interceptors\<close>

text \<open>A call descriptor is the request configuration of the HTTP client together with the
  flag \<^verbatim>\<open>_retry\<close>, which is \<^verbatim>\<open>undefined\<close> (false) on a fresh descriptor.\<close>

record config = request +
  retry :: bool

text \<open>\<^verbatim>\<open>headers.Authorization = v\<close>: the value of an existing name is replaced, a new name
  is added.\<close>

fun set_header :: "string \<Rightarrow> string \<Rightarrow> (string \<times> string) list \<Rightarrow> (string \<times> string) list" where
  "set_header k v [] = [(k, v)]"
| "set_header k v ((k', v') # hs) =
     (if k' = k then (k, v) # hs else (k', v') # set_header k v hs)"

text \<open>The request interceptor (\<^verbatim>\<open>api.interceptors.request\<close>).\<close>

definition request_interceptor :: "storage \<Rightarrow> config \<Rightarrow> config" where
  "request_interceptor ls cfg =
     (case ls ''access_token'' of
        None \<Rightarrow> cfg
      | Some token \<Rightarrow>
          if token \<noteq> [] then cfg\<lparr>headers := set_header ''Authorization'' (''Bearer '' @ token) (headers cfg)\<rparr>
          else cfg)"

text \<open>What the network answers to one request: a response with a status and a body
  (\<^verbatim>\<open>response.data\<close>, possibly \<^verbatim>\<open>undefined\<close>), or no response at all. The HTTP client
  resolves on a status from 200 to 299 and rejects otherwise.\<close>

datatype reply = HttpReply nat "json option" | NoReply

fun ok :: "reply \<Rightarrow> bool" where
  "ok (HttpReply st d) = (200 \<le> st \<and> st < 300)"
| "ok NoReply = False"

fun status :: "reply \<Rightarrow> nat option" where
  "status (HttpReply st d) = Some st"
| "status NoReply = None"

text \<open>The requests that leave the client: through the dispatcher \<^verbatim>\<open>api\<close>, or the refresh
  exchange, which is posted with the bare HTTP client.\<close>

datatype event = ApiSent config | RefreshSent request

text \<open>The network decides each reply from everything sent so far, the last event being
  the request that is answered.\<close>

type_synonym network = "event list \<Rightarrow> reply"

text \<open>The world outside the call: the credential store, the address of the page, the
  requests sent, and the contents of the store at every point where the call was suspended
  on the network, which is where other calls run.\<close>

record world =
  localStorage :: storage
  location :: string
  trace :: "event list"
  seen :: "storage list"

definition suspend :: "event \<Rightarrow> world \<Rightarrow> world" where
  "suspend e w = w\<lparr>trace := trace w @ [e], seen := seen w @ [localStorage w]\<rparr>"

datatype outcome = Resolved reply | Rejected reply

definition refresh_request :: "string \<Rightarrow> request" where
  "refresh_request refreshToken =
     \<lparr> url = ''/auth/refresh'',
       http_method = ''POST'',
       headers = [(''Content-Type'', ''application/json'')],
       body = Some (JObj [(''refresh_token'', JStr refreshToken)]) \<rparr>"

text \<open>The two writes after a successful exchange; \<^verbatim>\<open>setItem\<close> stores the string
  conversion of what the body holds under each name.\<close>

definition store_pair :: "json \<Rightarrow> storage \<Rightarrow> storage" where
  "store_pair d ls =
     (ls(''access_token'' \<mapsto> js_string_of (js_get d ''access_token'')))
       (''refresh_token'' \<mapsto> js_string_of (js_get d ''refresh_token''))"

text \<open>The \<^verbatim>\<open>catch\<close> block of the response interceptor.\<close>

definition session_invalidated :: "world \<Rightarrow> world" where
  "session_invalidated w =
     w\<lparr>localStorage := ((localStorage w)(''access_token'' := None))(''refresh_token'' := None),
       location := ''/login''\<rparr>"

text \<open>
  A call through the dispatcher and the error handler of the response interceptor
  (\<^verbatim>\<open>api.interceptors.response\<close>). The handler replays the descriptor with \<^verbatim>\<open>api\<close>, so the two
  are mutually recursive. The descriptor that the handler sees is the one that was sent,
  and the client keeps the mark on the descriptor that it replays.
  Destructuring a body that is \<^verbatim>\<open>undefined\<close> or \<^verbatim>\<open>null\<close> throws inside the \<^verbatim>\<open>try\<close>; the
  replay is returned without being awaited there, so its failure is not caught.
\<close>

function api_request :: "network \<Rightarrow> config \<Rightarrow> world \<Rightarrow> outcome \<times> world"
  and response_error :: "network \<Rightarrow> config \<Rightarrow> reply \<Rightarrow> world \<Rightarrow> outcome \<times> world"
where
  "api_request net cfg w =
     (let sent = request_interceptor (localStorage w) cfg;
          w1 = suspend (ApiSent sent) w;
          r = net (trace w1)
      in if ok r then (Resolved r, w1) else response_error net sent r w1)"
| "response_error net originalRequest r w =
     (if status r = Some 401 \<and> \<not> retry originalRequest then
        (let marked = originalRequest\<lparr>retry := True\<rparr>
         in case localStorage w ''refresh_token'' of
              None \<Rightarrow> (Rejected r, w)
            | Some refreshToken \<Rightarrow>
                if refreshToken \<noteq> [] then
                  (let w1 = suspend (RefreshSent (refresh_request refreshToken)) w;
                       response = net (trace w1)
                   in if ok response then
                        (case response of
                           HttpReply st (Some d) \<Rightarrow>
                             if d = JNull then (Rejected r, session_invalidated w1)
                             else
                               (let w2 = w1\<lparr>localStorage := store_pair d (localStorage w1)\<rparr>;
                                    replayed = marked\<lparr>headers :=
                                      set_header ''Authorization''
                                        (''Bearer '' @ js_string_of (js_get d ''access_token''))
                                        (headers marked)\<rparr>
                                in api_request net replayed w2)
                         | _ \<Rightarrow> (Rejected r, session_invalidated w1))
                      else (Rejected r, session_invalidated w1))
                else (Rejected r, w))
      else (Rejected r, w))"
  by pat_completeness auto
termination
  by (relation "measure (\<lambda>x. case x of
          Inl (net, cfg, w) \<Rightarrow> (if retry cfg then 1 else 3)
        | Inr (net, cfg, r, w) \<Rightarrow> (if retry cfg then 0 else 2))")
     (auto simp: request_interceptor_def split: option.splits)

declare api_request.simps [simp del]
declare response_error.simps [simp del]

text \<open>The number of refresh exchanges in a trace.\<close>

definition refreshes :: "event list \<Rightarrow> nat" where
  "refreshes t = length (filter (\<lambda>e. case e of ApiSent c \<Rightarrow> False | RefreshSent q \<Rightarrow> True) t)"

text \<open>The credential pair that a store holds.\<close>

definition credentials :: "storage \<Rightarrow> string option \<times> string option" where
  "credentials ls = (ls ''access_token'', ls ''refresh_token'')"

text \<open>A fresh descriptor as the dispatcher builds it: the instance is created with the
  JSON content type, and \<^verbatim>\<open>_retry\<close> is not set.\<close>

definition descriptor :: "string \<Rightarrow> string \<Rightarrow> json option \<Rightarrow> config" where
  "descriptor m u d =
     \<lparr> url = u, http_method = m, headers = [(''Content-Type'', ''application/json'')],
       body = d, retry = False \<rparr>"

text \<open>\<^verbatim>\<open>authAPI.getMe\<close>.\<close>

definition getMe :: config where
  "getMe = descriptor ''get'' ''/auth/me'' None"

subsection \<open>Worlds and networks used as examples\<close>

definition signed_in :: world where
  "signed_in =
     \<lparr> localStorage = [''access_token'' \<mapsto> ''a0'', ''refresh_token'' \<mapsto> ''r0''],
       location = ''/'', trace = [], seen = [] \<rparr>"

definition access_only :: world where
  "access_only =
     \<lparr> localStorage = [''access_token'' \<mapsto> ''a0''], location = ''/'', trace = [], seen = [] \<rparr>"

text \<open>A network that answers 401 to everything, and one that answers 401 to every call
  through the dispatcher but accepts the refresh exchange.\<close>

definition always_401 :: network where
  "always_401 t = HttpReply 401 None"

definition access_expired :: network where
  "access_expired t =
     (case last t of
        ApiSent c \<Rightarrow> HttpReply 401 None
      | RefreshSent q \<Rightarrow>
          HttpReply 200 (Some (JObj [(''access_token'', JStr ''a1''), (''refresh_token'', JStr ''r1'')])))"

definition noon :: clock where
  "noon = \<lparr> user_now = 1, user_iso = ''12:00'', assistant_now = 1, assistant_iso = ''12:00'' \<rparr>"

section \<open>Properties of the stream decoder\<close>

lemma split_nl_nonempty: "split_nl s \<noteq> []"
  by (induction s) (auto split: list.splits)

lemma split_nl_append_nl: "split_nl (xs @ CHR 0x0A # ys) = split_nl xs @ split_nl ys"
proof (induction xs)
  case Nil
  show ?case by simp
next
  case (Cons x xs)
  show ?case
  proof (cases "x = CHR 0x0A")
    case True
    with Cons show ?thesis by simp
  next
    case False
    obtain l ls where "split_nl xs = l # ls"
      using split_nl_nonempty [of xs] by (cases "split_nl xs") auto
    with False Cons show ?thesis by simp
  qed
qed

lemma split_nl_line: "CHR 0x0A \<notin> set l \<Longrightarrow> split_nl l = [l]"
  by (induction l) auto

lemma handle_line_empty: "handle_line parse f g h [] s = s"
  by (simp add: handle_line_def starts_with_def)

lemma handle_chunk_append_nl:
  "handle_chunk parse f g h (xs @ CHR 0x0A # ys) s =
     handle_chunk parse f g h ys (fold (handle_line parse f g h) (split_nl xs) s)"
  by (simp add: handle_chunk_def split_nl_append_nl)

lemma handle_chunk_empty: "handle_chunk parse f g h [] s = s"
  by (simp add: handle_chunk_def handle_line_empty)

lemma handle_chunk_terminated:
  "handle_chunk parse f g h (xs @ [CHR 0x0A]) s = fold (handle_line parse f g h) (split_nl xs) s"
  by (simp add: handle_chunk_append_nl handle_chunk_empty)

text \<open>A read that ends with a newline leaves nothing to carry over: handling it and then
  the rest is handling the two together.\<close>

lemma handle_chunk_terminated_append:
  assumes "c \<noteq> []" and "last c = CHR 0x0A"
  shows "handle_chunk parse f g h (c @ rest) s =
         handle_chunk parse f g h rest (handle_chunk parse f g h c s)"
proof -
  from assms have c: "c = butlast c @ [CHR 0x0A]"
    by (metis append_butlast_last_id)
  have "handle_chunk parse f g h (c @ rest) s =
        handle_chunk parse f g h (butlast c @ CHR 0x0A # rest) s"
    by (subst c) simp
  also have "\<dots> = handle_chunk parse f g h rest
                     (fold (handle_line parse f g h) (split_nl (butlast c)) s)"
    by (rule handle_chunk_append_nl)
  also have "fold (handle_line parse f g h) (split_nl (butlast c)) s = handle_chunk parse f g h c s"
    by (subst (2) c) (simp add: handle_chunk_terminated)
  finally show ?thesis .
qed

lemma whole_lines_reads:
  "\<forall>c \<in> set chunks. c \<noteq> [] \<and> last c = CHR 0x0A \<Longrightarrow>
   fold (handle_chunk parse f g h) chunks s = handle_chunk parse f g h (concat chunks) s"
proof (induction chunks arbitrary: s)
  case Nil
  show ?case by (simp add: handle_chunk_empty)
next
  case (Cons c chunks)
  then show ?case by (simp add: handle_chunk_terminated_append)
qed

lemma handle_line_content_frame:
  "content_frame parse line v \<Longrightarrow> handle_line parse f g h line s = f v s"
  by (auto simp: content_frame_def handle_line_def if_truthy_def js_truthy_def Let_def
      split: option.splits)

lemma handle_line_unparseable:
  "unparseable parse line \<Longrightarrow> handle_line parse f g h line s = s"
  by (auto simp: unparseable_def handle_line_def)

text \<open>
  Claim C1. A record split across two reads should give exactly one content frame. The
  decoder handles each read on its own: delivered in one read the record
  \<^verbatim>\<open>data: {"content":"hi"}\<close> gives the one frame, but split after \<^verbatim>\<open>data: {"cont\<close> the
  first piece fails to parse, the second lacks the prefix, and no callback is invoked.
\<close>

theorem split_record_lost:
  "stream_calls JSON_parse (ResponseOk [''data: {\"content\":\"hi\"}\<newline>''] EndOfData)
     = [OnChunk (JStr ''hi'')] \<and>
   stream_calls JSON_parse (ResponseOk [''data: {\"cont'', ''ent\":\"hi\"}\<newline>''] EndOfData)
     = []"
  by code_simp

text \<open>
  A parse failure by itself does not stop the stream. When the reads deliver whole lines,
  a content frame, a line that does not parse (or lacks the prefix) and another content
  frame invoke the content callback for the two frames, in order, and nothing else: the
  dropped line gives no callback and the error callback is not invoked.
\<close>

lemma malformed_line_skipped:
  assumes "content_frame parse l1 v1" and "unparseable parse bad" and "content_frame parse l2 v2"
    and "CHR 0x0A \<notin> set l1" and "CHR 0x0A \<notin> set bad" and "CHR 0x0A \<notin> set l2"
    and "concat chunks = l1 @ [CHR 0x0A] @ bad @ [CHR 0x0A] @ l2 @ [CHR 0x0A]"
    and "\<forall>c \<in> set chunks. c \<noteq> [] \<and> last c = CHR 0x0A"
  shows "stream_calls parse (ResponseOk chunks EndOfData) = [OnChunk v1, OnChunk v2]"
proof -
  let ?f = "\<lambda>v cs. cs @ [OnChunk v]" and ?g = "\<lambda>v cs. cs @ [OnDone v]"
    and ?h = "\<lambda>v cs. cs @ [OnError v]"
  have "stream_calls parse (ResponseOk chunks EndOfData) =
        handle_chunk parse ?f ?g ?h (concat chunks) []"
    using assms(8) by (simp add: stream_calls_def streamChat_def whole_lines_reads)
  also have "\<dots> = fold (handle_line parse ?f ?g ?h) [l1, bad, l2] []"
    using assms(4-6)
    by (simp add: assms(7) handle_chunk_append_nl handle_chunk_empty split_nl_line)
  also have "\<dots> = [OnChunk v1, OnChunk v2]"
    using assms(1-3) by (simp add: handle_line_content_frame handle_line_unparseable)
  finally show ?thesis .
qed

lemma malformed_line_skipped_witness:
  "content_frame JSON_parse ''data: {\"content\":\"A\"}'' (JStr ''A'') \<and>
   unparseable JSON_parse ''data: {\"content\":'' \<and>
   content_frame JSON_parse ''data: {\"content\":\"B\"}'' (JStr ''B'') \<and>
   stream_calls JSON_parse
     (ResponseOk [''data: {\"content\":\"A\"}\<newline>'',
                  ''data: {\"content\":\<newline>data: {\"content\":\"B\"}\<newline>''] EndOfData)
     = [OnChunk (JStr ''A''), OnChunk (JStr ''B'')]"
proof -
  have a: "content_frame JSON_parse ''data: {\"content\":\"A\"}'' (JStr ''A'')"
    by code_simp
  have b: "unparseable JSON_parse ''data: {\"content\":''"
    by code_simp
  have c: "content_frame JSON_parse ''data: {\"content\":\"B\"}'' (JStr ''B'')"
    by code_simp
  have "stream_calls JSON_parse
     (ResponseOk [''data: {\"content\":\"A\"}\<newline>'',
                  ''data: {\"content\":\<newline>data: {\"content\":\"B\"}\<newline>''] EndOfData)
     = [OnChunk (JStr ''A''), OnChunk (JStr ''B'')]"
    by (rule malformed_line_skipped [OF a b c]) simp_all
  with a b c show ?thesis by blast
qed

text \<open>
  Claim C7. Every stream with one line that does not parse between two content frames
  should deliver both frames, in order. The stream \<^verbatim>\<open>data: {"content":"A"}\<close>,
  \<^verbatim>\<open>data: {"content":\<close>, \<^verbatim>\<open>data: {"content":"B"}\<close> does so when it arrives in one read. When
  the reads cut the last record after \<^verbatim>\<open>data: {"cont\<close>, the first piece of that record
  fails to parse, the second lacks the prefix, and only the frame \<^verbatim>\<open>A\<close> is delivered: the
  decoder keeps nothing from one read to the next.
\<close>

theorem malformed_line_split_read:
  "stream_calls JSON_parse
     (ResponseOk
        [''data: {\"content\":\"A\"}\<newline>data: {\"content\":\<newline>data: {\"content\":\"B\"}\<newline>'']
        EndOfData)
     = [OnChunk (JStr ''A''), OnChunk (JStr ''B'')] \<and>
   stream_calls JSON_parse
     (ResponseOk
        [''data: {\"content\":\"A\"}\<newline>data: {\"content\":\<newline>data: {\"cont'',
         ''ent\":\"B\"}\<newline>'']
        EndOfData)
     = [OnChunk (JStr ''A'')]"
  by code_simp

section \<open>Properties of a chat turn\<close>

lemma handle_line_calls:
  "handle_line parse f g h line s = fold (call f g h) (line_calls parse line) s"
  by (simp add: handle_line_def line_calls_def if_truthy_def Let_def split: option.splits)

lemma line_calls_log:
  "handle_line parse (\<lambda>v cs. cs @ [OnChunk v]) (\<lambda>v cs. cs @ [OnDone v])
     (\<lambda>v cs. cs @ [OnError v]) line acc = acc @ line_calls parse line"
  by (simp add: handle_line_def line_calls_def if_truthy_def Let_def split: option.splits)

lemma fold_lines_log:
  "fold (call f g h)
     (fold (handle_line parse (\<lambda>v cs. cs @ [OnChunk v]) (\<lambda>v cs. cs @ [OnDone v])
        (\<lambda>v cs. cs @ [OnError v])) ls acc) s
   = fold (handle_line parse f g h) ls (fold (call f g h) acc s)"
proof (induction ls arbitrary: acc)
  case Nil
  show ?case by simp
next
  case (Cons l ls)
  let ?log = "handle_line parse (\<lambda>v cs. cs @ [OnChunk v]) (\<lambda>v cs. cs @ [OnDone v])
    (\<lambda>v cs. cs @ [OnError v])"
  have "fold (call f g h) (fold ?log (l # ls) acc) s =
        fold (call f g h) (fold ?log ls (acc @ line_calls parse l)) s"
    by (simp only: fold_simps line_calls_log)
  also have "\<dots> = fold (handle_line parse f g h) ls (fold (call f g h) (acc @ line_calls parse l) s)"
    by (rule Cons.IH)
  also have "fold (call f g h) (acc @ line_calls parse l) s =
             handle_line parse f g h l (fold (call f g h) acc s)"
    by (simp only: fold_append comp_apply handle_line_calls)
  finally show ?case by (simp only: fold_simps)
qed

lemma fold_chunks_log:
  "fold (call f g h)
     (fold (handle_chunk parse (\<lambda>v cs. cs @ [OnChunk v]) (\<lambda>v cs. cs @ [OnDone v])
        (\<lambda>v cs. cs @ [OnError v])) chunks acc) s
   = fold (handle_chunk parse f g h) chunks (fold (call f g h) acc s)"
proof (induction chunks arbitrary: acc)
  case Nil
  show ?case by simp
next
  case (Cons c chunks)
  let ?log = "handle_chunk parse (\<lambda>v cs. cs @ [OnChunk v]) (\<lambda>v cs. cs @ [OnDone v])
    (\<lambda>v cs. cs @ [OnError v])"
  have "fold (call f g h) (fold ?log (c # chunks) acc) s =
        fold (call f g h) (fold ?log chunks (?log c acc)) s"
    by (simp only: fold_simps)
  also have "\<dots> = fold (handle_chunk parse f g h) chunks (fold (call f g h) (?log c acc) s)"
    by (rule Cons.IH)
  also have "fold (call f g h) (?log c acc) s = handle_chunk parse f g h c (fold (call f g h) acc s)"
    unfolding handle_chunk_def by (rule fold_lines_log)
  finally show ?case by (simp only: fold_simps)
qed

text \<open>Whatever the callbacks are, \<^verbatim>\<open>streamChat\<close> applies them in the order recorded by
  \<open>stream_calls\<close>.\<close>

lemma streamChat_calls:
  "streamChat parse outcome f g h s = fold (call f g h) (stream_calls parse outcome) s"
proof (cases outcome)
  case (FetchRejected m)
  then show ?thesis by (simp add: streamChat_def stream_calls_def)
next
  case (ResponseNotOk b)
  then show ?thesis by (cases b) (simp_all add: streamChat_def stream_calls_def)
next
  case (ResponseOk chunks fin)
  then show ?thesis
    by (cases fin) (simp_all add: streamChat_def stream_calls_def fold_chunks_log)
qed

lemma example_lines:
  "split_nl ''data: {\"content\":\"A\"}\<newline>data: {\"content\":\"B\"}\<newline>data: {\"done\":true,\"conversation_id\":7}\<newline>''
   = [''data: {\"content\":\"A\"}'', ''data: {\"content\":\"B\"}'',
      ''data: {\"done\":true,\"conversation_id\":7}'', []]"
  by code_simp

lemma example_calls:
  "line_calls JSON_parse ''data: {\"content\":\"A\"}'' = [OnChunk (JStr ''A'')]"
  "line_calls JSON_parse ''data: {\"content\":\"B\"}'' = [OnChunk (JStr ''B'')]"
  "line_calls JSON_parse ''data: {\"done\":true,\"conversation_id\":7}'' = [OnDone (Some (JNum 7))]"
  "line_calls JSON_parse [] = []"
  by code_simp+

text \<open>
  Claim C6. The stream \<^verbatim>\<open>data: {"content":"A"}\<close>, \<^verbatim>\<open>data: {"content":"B"}\<close>,
  \<^verbatim>\<open>data: {"done":true,"conversation_id":7}\<close>, each line ended by a newline and the reads
  delivering whole lines, submitted from an idle page without a conversation: the turn
  appends the user's message and an assistant message whose content is exactly \<^verbatim>\<open>AB\<close>, and
  the page adopts the conversation identifier 7.
\<close>

theorem example_turn:
  assumes "\<not> isLoading s" and "\<not> isStreaming s" and "currentConversation s = None"
    and "concat chunks =
      ''data: {\"content\":\"A\"}\<newline>data: {\"content\":\"B\"}\<newline>data: {\"done\":true,\"conversation_id\":7}\<newline>''"
    and "\<forall>c \<in> set chunks. c \<noteq> [] \<and> last c = CHR 0x0A"
  shows "messages (handleSendMessage JSON_parse ls clk text (ResponseOk chunks EndOfData) s) =
           messages s @
           [\<lparr>msg_id = user_now clk, role = ''user'', content = text,
              model_used = None, created_at = user_iso clk\<rparr>,
            \<lparr>msg_id = assistant_now clk + 1, role = ''assistant'', content = ''AB'',
              model_used = Some (selectedModel s), created_at = assistant_iso clk\<rparr>] \<and>
         currentConversation (handleSendMessage JSON_parse ls clk text (ResponseOk chunks EndOfData) s) =
           Some \<lparr>conv_id = Some (JNum 7)\<rparr>"
proof -
  let ?run = "handleSendMessage JSON_parse ls clk text (ResponseOk chunks EndOfData) s"
  let ?f = chat_onChunk and ?g = "chat_onDone (currentConversation s)" and ?h = chat_onError
  have "?run = handle_chunk JSON_parse ?f ?g ?h (concat chunks) (submit ls clk text s)"
    using assms(1,2,5) by (simp add: handleSendMessage_def streamChat_def whole_lines_reads)
  also have "\<dots> = ?g (Some (JNum 7)) (?f (JStr ''B'') (?f (JStr ''A'') (submit ls clk text s)))"
    unfolding assms(4) handle_chunk_def example_lines
    by (simp add: handle_line_calls example_calls)
  finally have run:
    "?run = ?g (Some (JNum 7)) (?f (JStr ''B'') (?f (JStr ''A'') (submit ls clk text s)))" .
  show ?thesis
    unfolding run using assms(1-3)
    by (simp add: submit_def chat_onChunk_def chat_onDone_def setMessages_def update_last_def
        Let_def butlast_append)
qed

theorem example_turn_witness:
  "\<not> isLoading initial_chat \<and> \<not> isStreaming initial_chat \<and>
   currentConversation initial_chat = None \<and>
   messages (handleSendMessage JSON_parse Map.empty noon ''hello''
      (ResponseOk [''data: {\"content\":\"A\"}\<newline>'',
                   ''data: {\"content\":\"B\"}\<newline>data: {\"done\":true,\"conversation_id\":7}\<newline>'']
         EndOfData) initial_chat) =
     [\<lparr>msg_id = 1, role = ''user'', content = ''hello'', model_used = None, created_at = ''12:00''\<rparr>,
      \<lparr>msg_id = 2, role = ''assistant'', content = ''AB'',
        model_used = Some ''llama-3.1-70b-versatile'', created_at = ''12:00''\<rparr>] \<and>
   currentConversation (handleSendMessage JSON_parse Map.empty noon ''hello''
      (ResponseOk [''data: {\"content\":\"A\"}\<newline>'',
                   ''data: {\"content\":\"B\"}\<newline>data: {\"done\":true,\"conversation_id\":7}\<newline>'']
         EndOfData) initial_chat) = Some \<lparr>conv_id = Some (JNum 7)\<rparr>"
proof -
  have idle: "\<not> isLoading initial_chat" "\<not> isStreaming initial_chat"
    "currentConversation initial_chat = None"
    by (simp_all add: initial_chat_def)
  show ?thesis
    using idle
      example_turn [OF idle, of "[''data: {\"content\":\"A\"}\<newline>'',
        ''data: {\"content\":\"B\"}\<newline>data: {\"done\":true,\"conversation_id\":7}\<newline>'']"
        Map.empty noon "''hello''"]
    by (simp add: initial_chat_def noon_def)
qed

lemma chat_call_tail: "streaming_tail s \<Longrightarrow> streaming_tail (chat_call cap c s)"
  by (cases c)
     (auto simp: chat_call_def streaming_tail_def chat_onChunk_def chat_onDone_def chat_onError_def
        setMessages_def update_last_def Let_def)

lemma fold_chat_call_tail: "streaming_tail s \<Longrightarrow> streaming_tail (fold (chat_call cap) cs s)"
  by (induction cs arbitrary: s) (simp_all add: chat_call_tail)

lemma submit_tail: "\<not> isLoading s \<Longrightarrow> \<not> isStreaming s \<Longrightarrow> streaming_tail (submit ls clk text s)"
  by (simp add: submit_def streaming_tail_def Let_def)

text \<open>
  Claim C5, as stated: after a completion frame no later frame of the stream changes the
  message list. It fails: the stream \<^verbatim>\<open>data: {"content":"A"}\<close>, \<^verbatim>\<open>data: {"done":true}\<close>
  leaves the assistant's content \<^verbatim>\<open>A\<close>, and the same stream followed by
  \<^verbatim>\<open>data: {"content":"B"}\<close> leaves \<^verbatim>\<open>AB\<close>.
\<close>

theorem late_content_appended:
  "map content (messages (handleSendMessage JSON_parse Map.empty noon ''q''
      (ResponseOk [''data: {\"content\":\"A\"}\<newline>data: {\"done\":true}\<newline>''] EndOfData)
      initial_chat)) = [''q'', ''A''] \<and>
   map content (messages (handleSendMessage JSON_parse Map.empty noon ''q''
      (ResponseOk [''data: {\"content\":\"A\"}\<newline>data: {\"done\":true}\<newline>'',
                   ''data: {\"content\":\"B\"}\<newline>''] EndOfData)
      initial_chat)) = [''q'', ''AB'']"
  by code_simp

text \<open>
  Claim C5, amended. The decoder keeps reading after a completion or error frame, and a
  frame decoded afterwards is applied like any other. Whatever callbacks came before it
  (completion and error frames included), a completion frame leaves the message list as
  it is, a content frame appends its fragment to the last message, the assistant's, and
  an error frame replaces that message's content by the error text.
\<close>

theorem frames_after_settlement:
  assumes "\<not> isLoading s" and "\<not> isStreaming s"
    and "stream_calls parse outcome = before @ [c]"
  shows "let settled = fold (chat_call (currentConversation s)) before (submit ls clk text s);
             final = handleSendMessage parse ls clk text outcome s;
             m = last (messages settled)
         in case c of
              OnDone i \<Rightarrow> messages final = messages settled
            | OnChunk v \<Rightarrow>
                messages final =
                  butlast (messages settled) @ [m\<lparr>content := content m @ js_to_string v\<rparr>]
            | OnError e \<Rightarrow>
                messages final =
                  butlast (messages settled) @ [m\<lparr>content := ''Error: '' @ js_to_string e\<rparr>]"
proof -
  let ?settled = "fold (chat_call (currentConversation s)) before (submit ls clk text s)"
  have tail: "streaming_tail ?settled"
    using assms(1,2) by (simp add: fold_chat_call_tail submit_tail)
  have "handleSendMessage parse ls clk text outcome s = chat_call (currentConversation s) c ?settled"
    using assms by (simp add: handleSendMessage_def streamChat_calls chat_call_def)
  then show ?thesis
    using tail
    by (cases c)
       (simp_all add: chat_call_def streaming_tail_def chat_onChunk_def chat_onDone_def
          chat_onError_def setMessages_def update_last_def Let_def)
qed

theorem frames_after_settlement_witness:
  "\<not> isLoading initial_chat \<and> \<not> isStreaming initial_chat \<and>
   stream_calls JSON_parse
     (ResponseOk [''data: {\"content\":\"A\"}\<newline>data: {\"done\":true}\<newline>'',
                  ''data: {\"content\":\"B\"}\<newline>''] EndOfData)
     = [OnChunk (JStr ''A''), OnDone None] @ [OnChunk (JStr ''B'')] \<and>
   (let settled = fold (chat_call (currentConversation initial_chat))
                    [OnChunk (JStr ''A''), OnDone None] (submit Map.empty noon ''q'' initial_chat);
        final = handleSendMessage JSON_parse Map.empty noon ''q''
                  (ResponseOk [''data: {\"content\":\"A\"}\<newline>data: {\"done\":true}\<newline>'',
                               ''data: {\"content\":\"B\"}\<newline>''] EndOfData) initial_chat;
        m = last (messages settled)
    in messages final = butlast (messages settled) @ [m\<lparr>content := content m @ ''B''\<rparr>])"
proof -
  have idle: "\<not> isLoading initial_chat" "\<not> isStreaming initial_chat"
    by (simp_all add: initial_chat_def)
  have calls: "stream_calls JSON_parse
     (ResponseOk [''data: {\"content\":\"A\"}\<newline>data: {\"done\":true}\<newline>'',
                  ''data: {\"content\":\"B\"}\<newline>''] EndOfData)
     = [OnChunk (JStr ''A''), OnDone None] @ [OnChunk (JStr ''B'')]"
    by code_simp
  from frames_after_settlement [OF idle calls, of Map.empty noon "''q''"] idle calls
  show ?thesis by (simp add: Let_def)
qed

lemma turn_in_flight:
  assumes "\<not> isLoading s" and "\<not> isStreaming s"
  shows "isLoading (fold chat_onChunk vs (submit ls clk text s)) \<and>
         isStreaming (fold chat_onChunk vs (submit ls clk text s))"
proof -
  have flags: "isLoading (fold chat_onChunk vs t) = isLoading t \<and>
               isStreaming (fold chat_onChunk vs t) = isStreaming t" for t
    by (induction vs arbitrary: t)
       (simp_all add: chat_onChunk_def setMessages_def split: option.splits)
  from assms show ?thesis
    by (simp add: flags) (simp add: submit_def Let_def)
qed



section \<open>Properties of the dispatcher\<close>

lemma map_of_set_header: "map_of (set_header k v hs) k = Some v"
  by (induction hs) auto

text \<open>The request interceptor attaches the header exactly when the store holds a token
  that is not empty; otherwise it leaves the descriptor as it is.\<close>

lemma request_interceptor_authorization:
  "header (request_interceptor ls cfg) ''Authorization'' =
     (case ls ''access_token'' of
        None \<Rightarrow> header cfg ''Authorization''
      | Some token \<Rightarrow>
          if token \<noteq> [] then Some (''Bearer '' @ token) else header cfg ''Authorization'')"
  by (simp add: request_interceptor_def header_def map_of_set_header split: option.splits)

lemma retry_request_interceptor: "retry (request_interceptor ls cfg) = retry cfg"
  by (simp add: request_interceptor_def split: option.splits)

lemma response_error_retried:
  "retry cfg \<Longrightarrow> response_error net cfg r w = (Rejected r, w)"
  by (simp add: response_error.simps)

lemma api_request_retried:
  "retry cfg \<Longrightarrow>
   api_request net cfg w =
     (let w1 = suspend (ApiSent (request_interceptor (localStorage w) cfg)) w; r = net (trace w1)
      in (if ok r then Resolved r else Rejected r, w1))"
  by (subst api_request.simps)
     (simp add: Let_def response_error_retried retry_request_interceptor)

lemma api_request_unfold:
  "api_request net cfg w =
     (let sent = request_interceptor (localStorage w) cfg;
          r = net (trace w @ [ApiSent sent])
      in if ok r then (Resolved r, suspend (ApiSent sent) w)
         else response_error net sent r (suspend (ApiSent sent) w))"
  by (subst api_request.simps) (simp add: Let_def suspend_def)

lemma unauthorized_not_ok: "status r = Some 401 \<Longrightarrow> \<not> ok r"
  by (cases r) auto

text \<open>The three effects that the error handler can have on the world: none, a failed
  exchange that ends the session, or a successful exchange followed by one replay of a
  descriptor that is marked.\<close>

lemma response_error_world:
  assumes "response_error net cfg r w = (out, w')"
  shows "w' = w \<or>
         (\<exists>tok. localStorage w ''refresh_token'' = Some tok \<and>
            w' = session_invalidated (suspend (RefreshSent (refresh_request tok)) w)) \<or>
         (\<exists>tok st d c. localStorage w ''refresh_token'' = Some tok \<and>
            net (trace w @ [RefreshSent (refresh_request tok)]) = HttpReply st (Some d) \<and> retry c \<and>
            w' = suspend (ApiSent c)
                   ((suspend (RefreshSent (refresh_request tok)) w)
                      \<lparr>localStorage := store_pair d (localStorage w)\<rparr>))"
proof (cases "status r = Some 401 \<and> \<not> retry cfg")
  case False
  with assms show ?thesis by (auto simp: response_error.simps)
next
  case guard: True
  show ?thesis
  proof (cases "localStorage w ''refresh_token''")
    case None
    with guard assms show ?thesis by (simp add: response_error.simps)
  next
    case (Some tok)
    let ?w1 = "suspend (RefreshSent (refresh_request tok)) w"
    let ?rr = "net (trace ?w1)"
    have tr: "trace ?w1 = trace w @ [RefreshSent (refresh_request tok)]"
      and ls: "localStorage ?w1 = localStorage w"
      by (simp_all add: suspend_def)
    show ?thesis
    proof (cases "tok \<noteq> [] \<and> ok ?rr \<and> (\<exists>st d. ?rr = HttpReply st (Some d) \<and> d \<noteq> JNull)")
      case True
      then obtain st d where rr: "?rr = HttpReply st (Some d)" and d: "d \<noteq> JNull"
        and tok: "tok \<noteq> []" and okr: "ok ?rr" by blast
      let ?replayed = "cfg\<lparr>retry := True, headers := set_header ''Authorization''
            (''Bearer '' @ js_string_of (js_get d ''access_token'')) (headers cfg)\<rparr>"
      let ?w2 = "?w1\<lparr>localStorage := store_pair d (localStorage ?w1)\<rparr>"
      have "response_error net cfg r w = api_request net ?replayed ?w2"
        using guard Some tok okr rr d
        by (subst response_error.simps) (simp add: Let_def)
      also have "\<dots> =
          (let w3 = suspend (ApiSent (request_interceptor (localStorage ?w2) ?replayed)) ?w2;
               r2 = net (trace w3)
           in (if ok r2 then Resolved r2 else Rejected r2, w3))"
        by (rule api_request_retried) simp
      finally have "w' = suspend (ApiSent (request_interceptor (localStorage ?w2) ?replayed)) ?w2"
        using assms by (simp add: Let_def)
      moreover have "retry (request_interceptor (localStorage ?w2) ?replayed)"
        by (simp add: retry_request_interceptor)
      ultimately show ?thesis
        using Some rr tr ls by (intro disjI2) (auto simp del: fun_upd_apply)
    next
      case False
      have "w' = w \<or> w' = session_invalidated ?w1"
        using guard Some False assms
        by (subst (asm) response_error.simps)
           (auto simp: Let_def split: if_splits reply.splits option.splits)
      with Some show ?thesis by auto
    qed
  qed
qed

lemma api_request_world:
  assumes "api_request net cfg w = (out, w')"
  defines "w1 \<equiv> suspend (ApiSent (request_interceptor (localStorage w) cfg)) w"
  shows "w' = w1 \<or>
         (\<exists>tok. w' = session_invalidated (suspend (RefreshSent (refresh_request tok)) w1)) \<or>
         (\<exists>tok st d c.
            net (trace w1 @ [RefreshSent (refresh_request tok)]) = HttpReply st (Some d) \<and> retry c \<and>
            w' = suspend (ApiSent c)
                   ((suspend (RefreshSent (refresh_request tok)) w1)
                      \<lparr>localStorage := store_pair d (localStorage w)\<rparr>))"
proof (cases "ok (net (trace w1))")
  case True
  with assms show ?thesis by (subst (asm) api_request.simps) (auto simp: Let_def)
next
  case False
  with assms(1) have "response_error net (request_interceptor (localStorage w) cfg)
      (net (trace w1)) w1 = (out, w')"
    by (subst (asm) api_request.simps) (simp add: Let_def w1_def)
  from response_error_world [OF this] consider
      (plain) "w' = w1"
    | (failed) tok where "w' = session_invalidated (suspend (RefreshSent (refresh_request tok)) w1)"
    | (refreshed) tok st d c where
        "net (trace w1 @ [RefreshSent (refresh_request tok)]) = HttpReply st (Some d)" "retry c"
        "w' = suspend (ApiSent c)
                ((suspend (RefreshSent (refresh_request tok)) w1)
                   \<lparr>localStorage := store_pair d (localStorage w1)\<rparr>)"
    by blast
  then show ?thesis
  proof cases
    case plain
    then show ?thesis by simp
  next
    case failed
    then show ?thesis by blast
  next
    case refreshed
    have "localStorage w1 = localStorage w"
      by (simp add: w1_def suspend_def)
    with refreshed show ?thesis by (intro disjI2) auto
  qed
qed

lemma api_request_refreshed:
  assumes "status (net (trace w @ [ApiSent (request_interceptor (localStorage w) cfg)])) = Some 401"
    and "\<not> retry cfg"
    and "localStorage w ''refresh_token'' = Some tok" and "tok \<noteq> []"
    and "net (trace w @ [ApiSent (request_interceptor (localStorage w) cfg),
                         RefreshSent (refresh_request tok)]) = HttpReply st (Some d)"
    and "200 \<le> st" and "st < 300" and "d \<noteq> JNull"
  shows "seen (snd (api_request net cfg w)) =
           seen w @ [localStorage w, localStorage w, store_pair d (localStorage w)] \<and>
         localStorage (snd (api_request net cfg w)) = store_pair d (localStorage w) \<and>
         location (snd (api_request net cfg w)) = location w"
proof -
  let ?sent = "request_interceptor (localStorage w) cfg"
  let ?w1 = "suspend (ApiSent ?sent) w"
  let ?w2 = "suspend (RefreshSent (refresh_request tok)) ?w1"
  let ?replayed = "?sent\<lparr>retry := True, headers := set_header ''Authorization''
            (''Bearer '' @ js_string_of (js_get d ''access_token'')) (headers ?sent)\<rparr>"
  let ?w3 = "?w2\<lparr>localStorage := store_pair d (localStorage ?w2)\<rparr>"
  have "api_request net cfg w =
        response_error net ?sent (net (trace w @ [ApiSent ?sent])) ?w1"
    using assms(1) by (simp add: api_request_unfold Let_def unauthorized_not_ok)
  also have "\<dots> = api_request net ?replayed ?w3"
    using assms
    by (subst response_error.simps)
       (simp add: Let_def retry_request_interceptor suspend_def)
  also have "\<dots> =
      (let w4 = suspend (ApiSent (request_interceptor (localStorage ?w3) ?replayed)) ?w3;
           r2 = net (trace w4)
       in (if ok r2 then Resolved r2 else Rejected r2, w4))"
    by (rule api_request_retried) simp
  finally show ?thesis
    by (simp add: Let_def suspend_def)
qed

text \<open>
  Claim C2. Whatever the network answers, a call through the dispatcher sends the
  descriptor, then at most one refresh exchange, then at most one replay, and the replay
  carries the mark. A descriptor that already carries the mark is sent once and its
  failure, a 401 included, is the result of the call: no exchange and no replay follow.
\<close>

theorem at_most_one_replay:
  "(let sent = request_interceptor (localStorage w) cfg;
        after = trace (snd (api_request net cfg w))
    in after = trace w @ [ApiSent sent] \<or>
       (\<exists>q. after = trace w @ [ApiSent sent, RefreshSent q]) \<or>
       (\<exists>q c. after = trace w @ [ApiSent sent, RefreshSent q, ApiSent c] \<and> retry c)) \<and>
   (retry cfg \<longrightarrow>
      api_request net cfg w =
        (let sent = request_interceptor (localStorage w) cfg;
             r = net (trace w @ [ApiSent sent])
         in (if ok r then Resolved r else Rejected r, suspend (ApiSent sent) w)))"
proof -
  obtain out w' where res: "api_request net cfg w = (out, w')"
    by (cases "api_request net cfg w")
  have shape: "trace w' = trace w @ [ApiSent (request_interceptor (localStorage w) cfg)] \<or>
     (\<exists>q. trace w' = trace w @ [ApiSent (request_interceptor (localStorage w) cfg), RefreshSent q]) \<or>
     (\<exists>q c. trace w' = trace w @ [ApiSent (request_interceptor (localStorage w) cfg),
                RefreshSent q, ApiSent c] \<and> retry c)"
    using api_request_world [OF res]
    by (auto simp: suspend_def session_invalidated_def)
  have first: "let sent = request_interceptor (localStorage w) cfg;
        after = trace (snd (api_request net cfg w))
    in after = trace w @ [ApiSent sent] \<or>
       (\<exists>q. after = trace w @ [ApiSent sent, RefreshSent q]) \<or>
       (\<exists>q c. after = trace w @ [ApiSent sent, RefreshSent q, ApiSent c] \<and> retry c)"
    using shape by (simp add: res Let_def)
  have second: "retry cfg \<longrightarrow>
      api_request net cfg w =
        (let sent = request_interceptor (localStorage w) cfg;
             r = net (trace w @ [ApiSent sent])
         in (if ok r then Resolved r else Rejected r, suspend (ApiSent sent) w))"
    by (simp add: api_request_retried Let_def suspend_def)
  from first second show ?thesis by blast
qed

theorem at_most_one_replay_witness:
  "retry (getMe\<lparr>retry := True\<rparr>) \<and>
   api_request always_401 (getMe\<lparr>retry := True\<rparr>) signed_in =
     (Rejected (HttpReply 401 None),
      suspend (ApiSent (request_interceptor (localStorage signed_in) (getMe\<lparr>retry := True\<rparr>)))
        signed_in) \<and>
   fst (api_request access_expired getMe signed_in) = Rejected (HttpReply 401 None) \<and>
   trace (snd (api_request access_expired getMe signed_in)) =
     [ApiSent (getMe\<lparr>headers := [(''Content-Type'', ''application/json''),
                                   (''Authorization'', ''Bearer a0'')]\<rparr>),
      RefreshSent (refresh_request ''r0''),
      ApiSent (getMe\<lparr>headers := [(''Content-Type'', ''application/json''),
                                   (''Authorization'', ''Bearer a1'')], retry := True\<rparr>)]"
proof -
  have marked: "retry (getMe\<lparr>retry := True\<rparr>)"
    by simp
  have final: "api_request always_401 (getMe\<lparr>retry := True\<rparr>) signed_in =
     (Rejected (HttpReply 401 None),
      suspend (ApiSent (request_interceptor (localStorage signed_in) (getMe\<lparr>retry := True\<rparr>)))
        signed_in)"
    using at_most_one_replay [of signed_in "getMe\<lparr>retry := True\<rparr>" always_401] marked
    by (simp add: always_401_def Let_def)
  have twice: "fst (api_request access_expired getMe signed_in) = Rejected (HttpReply 401 None) \<and>
   trace (snd (api_request access_expired getMe signed_in)) =
     [ApiSent (getMe\<lparr>headers := [(''Content-Type'', ''application/json''),
                                   (''Authorization'', ''Bearer a0'')]\<rparr>),
      RefreshSent (refresh_request ''r0''),
      ApiSent (getMe\<lparr>headers := [(''Content-Type'', ''application/json''),
                                   (''Authorization'', ''Bearer a1'')], retry := True\<rparr>)]"
    by code_simp
  from marked final twice show ?thesis by blast
qed

text \<open>
  Claim C10. The refresh exchange is posted with the bare client: its request is not a
  descriptor of the dispatcher, carries no authorization header, and its failure is
  handled in place. So a call causes at most one exchange, and when the exchange itself is
  refused (with a 401 or otherwise) the call ends there, with the original failure and the
  session invalidated, and no further exchange.
\<close>

theorem refresh_not_nested:
  "refreshes (trace (snd (api_request net cfg w))) \<le> refreshes (trace w) + 1 \<and>
   header (refresh_request tok) ''Authorization'' = None \<and>
   (let sent = request_interceptor (localStorage w) cfg;
        r = net (trace w @ [ApiSent sent]);
        answer = net (trace w @ [ApiSent sent, RefreshSent (refresh_request tok)])
    in status r = Some 401 \<and> \<not> retry cfg \<and>
       localStorage w ''refresh_token'' = Some tok \<and> tok \<noteq> [] \<and> \<not> ok answer \<longrightarrow>
       api_request net cfg w =
         (Rejected r,
          session_invalidated
            (suspend (RefreshSent (refresh_request tok)) (suspend (ApiSent sent) w))))"
proof -
  obtain out w' where res: "api_request net cfg w = (out, w')"
    by (cases "api_request net cfg w")
  have "refreshes (trace w') \<le> refreshes (trace w) + 1"
    using api_request_world [OF res]
    by (auto simp: suspend_def session_invalidated_def refreshes_def)
  then have bound: "refreshes (trace (snd (api_request net cfg w))) \<le> refreshes (trace w) + 1"
    by (simp add: res)
  have bare: "header (refresh_request tok) ''Authorization'' = None"
    by (simp add: header_def refresh_request_def)
  have final: "let sent = request_interceptor (localStorage w) cfg;
        r = net (trace w @ [ApiSent sent]);
        answer = net (trace w @ [ApiSent sent, RefreshSent (refresh_request tok)])
    in status r = Some 401 \<and> \<not> retry cfg \<and>
       localStorage w ''refresh_token'' = Some tok \<and> tok \<noteq> [] \<and> \<not> ok answer \<longrightarrow>
       api_request net cfg w =
         (Rejected r,
          session_invalidated
            (suspend (RefreshSent (refresh_request tok)) (suspend (ApiSent sent) w)))"
    by (simp add: api_request_unfold Let_def unauthorized_not_ok)
       (simp add: response_error.simps retry_request_interceptor suspend_def Let_def)
  from bound bare final show ?thesis by blast
qed

theorem refresh_not_nested_witness:
  "status (always_401 (trace signed_in @
      [ApiSent (request_interceptor (localStorage signed_in) getMe)])) = Some 401 \<and>
   \<not> retry getMe \<and>
   localStorage signed_in ''refresh_token'' = Some ''r0'' \<and>
   \<not> ok (always_401 (trace signed_in @
      [ApiSent (request_interceptor (localStorage signed_in) getMe),
       RefreshSent (refresh_request ''r0'')])) \<and>
   api_request always_401 getMe signed_in =
     (Rejected (HttpReply 401 None),
      session_invalidated
        (suspend (RefreshSent (refresh_request ''r0''))
           (suspend (ApiSent (request_interceptor (localStorage signed_in) getMe)) signed_in))) \<and>
   refreshes (trace (snd (api_request always_401 getMe signed_in))) = 1"
proof -
  have hyps: "status (always_401 (trace signed_in @
      [ApiSent (request_interceptor (localStorage signed_in) getMe)])) = Some 401"
    "\<not> retry getMe"
    "localStorage signed_in ''refresh_token'' = Some ''r0''"
    "\<not> ok (always_401 (trace signed_in @
      [ApiSent (request_interceptor (localStorage signed_in) getMe),
       RefreshSent (refresh_request ''r0'')]))"
    by (simp_all add: always_401_def getMe_def descriptor_def signed_in_def)
  have result: "api_request always_401 getMe signed_in =
     (Rejected (HttpReply 401 None),
      session_invalidated
        (suspend (RefreshSent (refresh_request ''r0''))
           (suspend (ApiSent (request_interceptor (localStorage signed_in) getMe)) signed_in)))"
    using refresh_not_nested [of always_401 getMe signed_in "''r0''"] hyps
    by (simp add: Let_def always_401_def)
  have "refreshes (trace (snd (api_request always_401 getMe signed_in))) = 1"
    unfolding result
    by (simp add: refreshes_def session_invalidated_def suspend_def signed_in_def)
  with hyps result show ?thesis by blast
qed

text \<open>
  Claim C3, as stated: a 401 on a descriptor without the mark, with no refresh credential
  in the store, clears the credential pair and routes to re-authentication. It fails: with
  an access credential only, and a network that answers 401, the call is rejected with the
  401 while the access credential stays in the store and the page stays where it is.
\<close>

theorem no_refresh_credential_keeps_session:
  "fst (api_request always_401 getMe access_only) = Rejected (HttpReply 401 None) \<and>
   localStorage (snd (api_request always_401 getMe access_only)) ''access_token'' = Some ''a0'' \<and>
   location (snd (api_request always_401 getMe access_only)) = ''/''"
  by code_simp

text \<open>
  Claim C3, amended. When a 401 arrives and the store holds no refresh credential (none,
  or an empty one), the handler makes no refresh exchange and rejects with the original
  failure; the credential store and the address of the page are left as they were. The
  only effect of the call on the world is the one request that was sent.
\<close>

theorem no_refresh_credential_rejects:
  assumes "status (net (trace w @ [ApiSent (request_interceptor (localStorage w) cfg)])) = Some 401"
    and "\<not> present (localStorage w ''refresh_token'')"
  shows "api_request net cfg w =
           (Rejected (net (trace w @ [ApiSent (request_interceptor (localStorage w) cfg)])),
            suspend (ApiSent (request_interceptor (localStorage w) cfg)) w)"
  using assms
  by (simp add: api_request_unfold Let_def unauthorized_not_ok)
     (auto simp: response_error.simps suspend_def present_def Let_def split: option.splits)

theorem no_refresh_credential_rejects_witness:
  "status (always_401 (trace access_only @
      [ApiSent (request_interceptor (localStorage access_only) getMe)])) = Some 401 \<and>
   \<not> present (localStorage access_only ''refresh_token'') \<and>
   api_request always_401 getMe access_only =
     (Rejected (HttpReply 401 None),
      suspend (ApiSent (request_interceptor (localStorage access_only) getMe)) access_only)"
proof -
  have hyps: "status (always_401 (trace access_only @
      [ApiSent (request_interceptor (localStorage access_only) getMe)])) = Some 401"
    "\<not> present (localStorage access_only ''refresh_token'')"
    by (simp_all add: always_401_def access_only_def present_def)
  from no_refresh_credential_rejects [where net = always_401 and w = access_only and cfg = getMe]
    hyps
  show ?thesis by (simp add: always_401_def)
qed

text \<open>
  Claim C4. A request carries the authorization header when and only when the store
  holds an access credential. The request interceptor of the dispatcher does that (a fresh
  descriptor sent from an empty store has no such header), but \<^verbatim>\<open>streamChat\<close> builds its
  request without the test: from an empty store it sends the header \<^verbatim>\<open>Bearer null\<close>.
\<close>

theorem stream_request_bearer_null:
  "header (streamChat_request Map.empty data) ''Authorization'' = Some ''Bearer null'' \<and>
   header (request_interceptor Map.empty (descriptor m u d)) ''Authorization'' = None"
  by (simp add: streamChat_request_def request_interceptor_def descriptor_def header_def)

text \<open>
  Claim C8. The handler writes the two credentials in one step between two suspensions.
  Every content of the store that another call can see while this one is suspended, and
  the content at its end, holds the pair that was there at the start, or no credential at
  all, or the two values of one answer to the refresh exchange. After a successful
  exchange the store was seen with the old pair at the first request and at the exchange
  and with the new pair at the replay, and it ends with the new pair.
\<close>

theorem credentials_written_together:
  "(\<forall>ls \<in> set (seen (snd (api_request net cfg w))) \<union> {localStorage (snd (api_request net cfg w))}.
      ls \<in> set (seen w) \<or>
      credentials ls = credentials (localStorage w) \<or>
      credentials ls = (None, None) \<or>
      (\<exists>q st d.
         net (trace w @ [ApiSent (request_interceptor (localStorage w) cfg), RefreshSent q])
           = HttpReply st (Some d) \<and>
         credentials ls = (Some (js_string_of (js_get d ''access_token'')),
                           Some (js_string_of (js_get d ''refresh_token''))))) \<and>
   (status (net (trace w @ [ApiSent (request_interceptor (localStorage w) cfg)])) = Some 401 \<and>
    \<not> retry cfg \<and> localStorage w ''refresh_token'' = Some tok \<and> tok \<noteq> [] \<and>
    net (trace w @ [ApiSent (request_interceptor (localStorage w) cfg),
                    RefreshSent (refresh_request tok)]) = HttpReply st (Some d) \<and>
    200 \<le> st \<and> st < 300 \<and> d \<noteq> JNull \<longrightarrow>
    map credentials (seen (snd (api_request net cfg w))) =
      map credentials (seen w) @
      [credentials (localStorage w), credentials (localStorage w),
       (Some (js_string_of (js_get d ''access_token'')),
        Some (js_string_of (js_get d ''refresh_token'')))] \<and>
    credentials (localStorage (snd (api_request net cfg w))) =
      (Some (js_string_of (js_get d ''access_token'')),
       Some (js_string_of (js_get d ''refresh_token''))))"
proof -
  let ?sent = "request_interceptor (localStorage w) cfg"
  obtain out w' where res: "api_request net cfg w = (out, w')"
    by (cases "api_request net cfg w")
  have new: "credentials (store_pair d s) =
      (Some (js_string_of (js_get d ''access_token'')),
       Some (js_string_of (js_get d ''refresh_token'')))" for d s
    by (simp add: credentials_def store_pair_def)
  have gone: "credentials (localStorage (session_invalidated v)) = (None, None)" for v
    by (simp add: credentials_def session_invalidated_def)
  have seen_all: "ls \<in> set (seen w) \<or>
      credentials ls = credentials (localStorage w) \<or>
      credentials ls = (None, None) \<or>
      (\<exists>q st d.
         net (trace w @ [ApiSent ?sent, RefreshSent q]) = HttpReply st (Some d) \<and>
         credentials ls = (Some (js_string_of (js_get d ''access_token'')),
                           Some (js_string_of (js_get d ''refresh_token''))))"
    if mem: "ls \<in> set (seen w') \<union> {localStorage w'}" for ls
  proof -
    from api_request_world [OF res] consider
        (plain) "w' = suspend (ApiSent ?sent) w"
      | (failed) tok where "w' = session_invalidated (suspend (RefreshSent (refresh_request tok))
            (suspend (ApiSent ?sent) w))"
      | (refreshed) tok st d c where
          "net (trace (suspend (ApiSent ?sent) w) @ [RefreshSent (refresh_request tok)])
             = HttpReply st (Some d)"
          "w' = suspend (ApiSent c)
                  ((suspend (RefreshSent (refresh_request tok)) (suspend (ApiSent ?sent) w))
                     \<lparr>localStorage := store_pair d (localStorage w)\<rparr>)"
      by blast
    then show ?thesis
    proof cases
      case plain
      with mem show ?thesis by (auto simp: suspend_def)
    next
      case failed
      have "ls = localStorage w' \<or> ls \<in> set (seen w) \<or> ls = localStorage w"
        using mem failed by (auto simp: suspend_def session_invalidated_def)
      then show ?thesis using gone failed by auto
    next
      case refreshed
      have "ls = store_pair d (localStorage w) \<or> ls \<in> set (seen w) \<or> ls = localStorage w"
        using mem refreshed(2) by (auto simp: suspend_def)
      moreover have "net (trace w @ [ApiSent ?sent, RefreshSent (refresh_request tok)])
          = HttpReply st (Some d)"
        using refreshed(1) by (simp add: suspend_def)
      ultimately show ?thesis using new by blast
    qed
  qed
  have general: "\<forall>ls \<in> set (seen (snd (api_request net cfg w))) \<union>
        {localStorage (snd (api_request net cfg w))}.
      ls \<in> set (seen w) \<or>
      credentials ls = credentials (localStorage w) \<or>
      credentials ls = (None, None) \<or>
      (\<exists>q st d.
         net (trace w @ [ApiSent ?sent, RefreshSent q]) = HttpReply st (Some d) \<and>
         credentials ls = (Some (js_string_of (js_get d ''access_token'')),
                           Some (js_string_of (js_get d ''refresh_token''))))"
    unfolding res snd_conv using seen_all by blast
  have success: "status (net (trace w @ [ApiSent ?sent])) = Some 401 \<and>
    \<not> retry cfg \<and> localStorage w ''refresh_token'' = Some tok \<and> tok \<noteq> [] \<and>
    net (trace w @ [ApiSent ?sent, RefreshSent (refresh_request tok)]) = HttpReply st (Some d) \<and>
    200 \<le> st \<and> st < 300 \<and> d \<noteq> JNull \<longrightarrow>
    map credentials (seen (snd (api_request net cfg w))) =
      map credentials (seen w) @
      [credentials (localStorage w), credentials (localStorage w),
       (Some (js_string_of (js_get d ''access_token'')),
        Some (js_string_of (js_get d ''refresh_token'')))] \<and>
    credentials (localStorage (snd (api_request net cfg w))) =
      (Some (js_string_of (js_get d ''access_token'')),
       Some (js_string_of (js_get d ''refresh_token'')))"
  proof
    assume h: "status (net (trace w @ [ApiSent ?sent])) = Some 401 \<and>
      \<not> retry cfg \<and> localStorage w ''refresh_token'' = Some tok \<and> tok \<noteq> [] \<and>
      net (trace w @ [ApiSent ?sent, RefreshSent (refresh_request tok)]) = HttpReply st (Some d) \<and>
      200 \<le> st \<and> st < 300 \<and> d \<noteq> JNull"
    then have "seen (snd (api_request net cfg w)) =
           seen w @ [localStorage w, localStorage w, store_pair d (localStorage w)] \<and>
         localStorage (snd (api_request net cfg w)) = store_pair d (localStorage w) \<and>
         location (snd (api_request net cfg w)) = location w"
      using api_request_refreshed [where net = net and w = w and cfg = cfg and tok = tok
          and st = st and d = d]
      by blast
    then show "map credentials (seen (snd (api_request net cfg w))) =
      map credentials (seen w) @
      [credentials (localStorage w), credentials (localStorage w),
       (Some (js_string_of (js_get d ''access_token'')),
        Some (js_string_of (js_get d ''refresh_token'')))] \<and>
    credentials (localStorage (snd (api_request net cfg w))) =
      (Some (js_string_of (js_get d ''access_token'')),
       Some (js_string_of (js_get d ''refresh_token'')))"
      by (simp add: new)
  qed
  from general success show ?thesis by blast
qed

theorem credentials_written_together_witness:
  "status (access_expired (trace signed_in @
      [ApiSent (request_interceptor (localStorage signed_in) getMe)])) = Some 401 \<and>
   \<not> retry getMe \<and> localStorage signed_in ''refresh_token'' = Some ''r0'' \<and>
   access_expired (trace signed_in @
      [ApiSent (request_interceptor (localStorage signed_in) getMe),
       RefreshSent (refresh_request ''r0'')])
     = HttpReply 200 (Some (JObj [(''access_token'', JStr ''a1''), (''refresh_token'', JStr ''r1'')])) \<and>
   map credentials (seen (snd (api_request access_expired getMe signed_in))) =
     [(Some ''a0'', Some ''r0''), (Some ''a0'', Some ''r0''), (Some ''a1'', Some ''r1'')] \<and>
   credentials (localStorage (snd (api_request access_expired getMe signed_in))) =
     (Some ''a1'', Some ''r1'')"
proof -
  have hyps: "status (access_expired (trace signed_in @
      [ApiSent (request_interceptor (localStorage signed_in) getMe)])) = Some 401"
    "\<not> retry getMe" "localStorage signed_in ''refresh_token'' = Some ''r0''"
    "access_expired (trace signed_in @
      [ApiSent (request_interceptor (localStorage signed_in) getMe),
       RefreshSent (refresh_request ''r0'')])
     = HttpReply 200 (Some (JObj [(''access_token'', JStr ''a1''), (''refresh_token'', JStr ''r1'')]))"
    by (simp_all add: access_expired_def getMe_def descriptor_def signed_in_def)
  from credentials_written_together [of access_expired getMe signed_in "''r0''" 200
      "JObj [(''access_token'', JStr ''a1''), (''refresh_token'', JStr ''r1'')]"] hyps
  have "map credentials (seen (snd (api_request access_expired getMe signed_in))) =
     map credentials (seen signed_in) @
     [credentials (localStorage signed_in), credentials (localStorage signed_in),
      (Some (js_string_of (js_get (JObj [(''access_token'', JStr ''a1''), (''refresh_token'', JStr ''r1'')]) ''access_token'')),
       Some (js_string_of (js_get (JObj [(''access_token'', JStr ''a1''), (''refresh_token'', JStr ''r1'')]) ''refresh_token'')))] \<and>
   credentials (localStorage (snd (api_request access_expired getMe signed_in))) =
     (Some (js_string_of (js_get (JObj [(''access_token'', JStr ''a1''), (''refresh_token'', JStr ''r1'')]) ''access_token'')),
      Some (js_string_of (js_get (JObj [(''access_token'', JStr ''a1''), (''refresh_token'', JStr ''r1'')]) ''refresh_token'')))"
    by simp
  then have "map credentials (seen (snd (api_request access_expired getMe signed_in))) =
     [(Some ''a0'', Some ''r0''), (Some ''a0'', Some ''r0''), (Some ''a1'', Some ''r1'')] \<and>
   credentials (localStorage (snd (api_request access_expired getMe signed_in))) =
     (Some ''a1'', Some ''r1'')"
    by (simp add: signed_in_def credentials_def js_string_of_def)
  with hyps show ?thesis by blast
qed

end
